theory Spec2Isabelle
  imports
    Main
    "HOL-Library.Char_ord"
    "HOL-Library.List_Lexorder"
    "HOL-Library.Product_Lexorder"
    "HOL-Library.AList"
begin

section \<open>The catalog of the database server\<close>

text \<open>
  \<^verbatim>\<open>get_postgres_schema_with_relations\<close> reads six catalog relations.  Each is a list of
  rows; a row is a record holding the attributes that the SQL text of the source mentions.
  Character data is a \<^typ>\<open>string\<close>, \<^verbatim>\<open>ordinal_position\<close> an unbounded integer.
\<close>

record tables_row =
  t_table_schema :: string
  t_table_name :: string
  t_table_type :: string

record columns_row =
  c_table_schema :: string
  c_table_name :: string
  c_column_name :: string
  c_data_type :: string
  c_is_nullable :: string
  c_ordinal_position :: int

record table_constraints_row =
  tc_constraint_name :: string
  tc_table_schema :: string
  tc_table_name :: string
  tc_constraint_type :: string

record key_column_usage_row =
  kcu_constraint_name :: string
  kcu_table_schema :: string
  kcu_column_name :: string

record constraint_column_usage_row =
  ccu_constraint_name :: string
  ccu_table_schema :: string
  ccu_table_name :: string
  ccu_column_name :: string

record pg_indexes_row =
  ix_schemaname :: string
  ix_tablename :: string
  ix_indexname :: string
  ix_indexdef :: string

record catalog =
  is_tables :: "tables_row list"
  is_columns :: "columns_row list"
  is_table_constraints :: "table_constraints_row list"
  is_key_column_usage :: "key_column_usage_row list"
  is_constraint_column_usage :: "constraint_column_usage_row list"
  pg_indexes :: "pg_indexes_row list"

section \<open>The five catalog queries\<close>

text \<open>
  Each query of the source is a function from the catalog (and the two bound parameters
  \<^verbatim>\<open>%s\<close>) to the rows that \<^verbatim>\<open>cursor.fetchall()\<close> returns.  \<^verbatim>\<open>WHERE\<close> is a filter,
  \<^verbatim>\<open>ORDER BY\<close> a sort on the key, \<^verbatim>\<open>JOIN ... ON\<close> a nested comprehension with the join
  condition as its guard.  The queries without \<^verbatim>\<open>ORDER BY\<close> come back in nested-loop order;
  nothing below depends on that order.
\<close>

definition system_schemas :: "string list" where
  "system_schemas = [''information_schema'', ''pg_catalog'', ''pg_toast'']"

definition select_tables :: "catalog \<Rightarrow> (string \<times> string) list" where
  "select_tables cat =
     map (\<lambda>r. (t_table_schema r, t_table_name r))
       (sort_key (\<lambda>r. (t_table_schema r, t_table_name r))
         (filter (\<lambda>r. t_table_schema r \<notin> set system_schemas \<and> t_table_type r = ''BASE TABLE'')
           (is_tables cat)))"

definition select_columns ::
  "catalog \<Rightarrow> string \<Rightarrow> string \<Rightarrow> (string \<times> string \<times> string \<times> int) list" where
  "select_columns cat schema table =
     map (\<lambda>r. (c_column_name r, c_data_type r, c_is_nullable r, c_ordinal_position r))
       (sort_key c_ordinal_position
         (filter (\<lambda>r. c_table_schema r = schema \<and> c_table_name r = table) (is_columns cat)))"

definition select_primary_keys :: "catalog \<Rightarrow> string \<Rightarrow> string \<Rightarrow> string list" where
  "select_primary_keys cat schema table =
     [c_column_name c.
        tc \<leftarrow> is_table_constraints cat,
        ccu \<leftarrow> is_constraint_column_usage cat,
        tc_constraint_name tc = ccu_constraint_name ccu,
        c \<leftarrow> is_columns cat,
        c_table_schema c = tc_table_schema tc \<and> c_table_name c = tc_table_name tc
          \<and> c_column_name c = ccu_column_name ccu,
        tc_constraint_type tc = ''PRIMARY KEY'' \<and> tc_table_schema tc = schema
          \<and> tc_table_name tc = table]"

definition select_foreign_keys ::
  "catalog \<Rightarrow> string \<Rightarrow> string \<Rightarrow> (string \<times> string \<times> string \<times> string) list" where
  "select_foreign_keys cat schema table =
     [(kcu_column_name kcu, ccu_table_schema ccu, ccu_table_name ccu, ccu_column_name ccu).
        tc \<leftarrow> is_table_constraints cat,
        kcu \<leftarrow> is_key_column_usage cat,
        tc_constraint_name tc = kcu_constraint_name kcu
          \<and> tc_table_schema tc = kcu_table_schema kcu,
        ccu \<leftarrow> is_constraint_column_usage cat,
        ccu_constraint_name ccu = tc_constraint_name tc,
        tc_constraint_type tc = ''FOREIGN KEY'' \<and> tc_table_schema tc = schema
          \<and> tc_table_name tc = table]"

definition select_indexes :: "catalog \<Rightarrow> string \<Rightarrow> string \<Rightarrow> (string \<times> string) list" where
  "select_indexes cat schema table =
     map (\<lambda>r. (ix_indexname r, ix_indexdef r))
       (filter (\<lambda>r. ix_schemaname r = schema \<and> ix_tablename r = table) (pg_indexes cat))"

section \<open>The server as the extraction sees it\<close>

text \<open>
  \<^verbatim>\<open>psycopg2.connect\<close> either raises or hands back a connection; every
  \<^verbatim>\<open>cursor.execute\<close> either raises or makes its rows available.  The server is therefore a
  catalog together with the connection parameters it accepts and the statements it rejects.
\<close>

record conn_params =
  host :: string
  port :: int
  database :: string
  user :: string
  password :: string

datatype statement =
    SelectTables
  | SelectColumns string string
  | SelectPrimaryKeys string string
  | SelectForeignKeys string string
  | SelectIndexes string string

datatype error =
    OperationalError
  | DatabaseError statement
  | KeyError string

record server =
  accepts :: "conn_params \<Rightarrow> bool"
  rejects :: "statement \<Rightarrow> bool"
  catalog_of :: catalog

text \<open>The connections opened and closed so far: the only effect of the extraction.\<close>

record connections =
  opened :: nat
  closed :: nat

section \<open>The schema model\<close>

record column_info =
  name :: string
  type :: string
  nullable :: string
  position :: int

record foreign_key =
  from_table :: string
  from_column :: string
  to_table :: string
  to_column :: string

record index_info =
  index_name :: string
  index_definition :: string

record schema_info =
  tables :: "string list"
  columns :: "string \<rightharpoonup> column_info list"
  primary_keys :: "string \<rightharpoonup> string list"
  foreign_keys :: "foreign_key list"
  indexes :: "string \<rightharpoonup> index_info list"

definition empty_schema_info :: schema_info where
  "empty_schema_info =
     \<lparr>tables = [], columns = Map.empty, primary_keys = Map.empty, foreign_keys = [],
      indexes = Map.empty\<rparr>"

section \<open>\<^verbatim>\<open>get_postgres_schema_with_relations\<close>\<close>

definition table_full :: "string \<Rightarrow> string \<Rightarrow> string" where
  "table_full schema table = schema @ ''.'' @ table"

definition column_of_row :: "string \<times> string \<times> string \<times> int \<Rightarrow> column_info" where
  "column_of_row col =
     (case col of (c0, c1, c2, c3) \<Rightarrow> \<lparr>name = c0, type = c1, nullable = c2, position = c3\<rparr>)"

definition foreign_key_of_row ::
  "string \<Rightarrow> string \<Rightarrow> string \<times> string \<times> string \<times> string \<Rightarrow> foreign_key" where
  "foreign_key_of_row schema table fk =
     (case fk of (f0, f1, f2, f3) \<Rightarrow>
        \<lparr>from_table = table_full schema table, from_column = f0,
         to_table = table_full f1 f2, to_column = f3\<rparr>)"

definition index_of_row :: "string \<times> string \<Rightarrow> index_info" where
  "index_of_row idx = (case idx of (i0, i1) \<Rightarrow> \<lparr>index_name = i0, index_definition = i1\<rparr>)"

text \<open>
  One pass of the body of \<^verbatim>\<open>for schema, table in tables\<close>: four statements, each of which
  may raise, and the four updates of the dictionary between them.
\<close>

definition extract_table ::
  "server \<Rightarrow> string \<Rightarrow> string \<Rightarrow> schema_info \<Rightarrow> error + schema_info" where
  "extract_table srv schema table si =
     (let cat = catalog_of srv;
          tf = table_full schema table;
          si1 = si\<lparr>tables := tables si @ [tf]\<rparr>
      in if rejects srv (SelectColumns schema table)
         then Inl (DatabaseError (SelectColumns schema table))
         else
           let si2 = si1\<lparr>columns :=
                 (columns si1)(tf \<mapsto> map column_of_row (select_columns cat schema table))\<rparr>
           in if rejects srv (SelectPrimaryKeys schema table)
              then Inl (DatabaseError (SelectPrimaryKeys schema table))
              else
                let si3 = si2\<lparr>primary_keys :=
                      (primary_keys si2)(tf \<mapsto> select_primary_keys cat schema table)\<rparr>
                in if rejects srv (SelectForeignKeys schema table)
                   then Inl (DatabaseError (SelectForeignKeys schema table))
                   else
                     let si4 = si3\<lparr>foreign_keys := foreign_keys si3 @
                           map (foreign_key_of_row schema table)
                             (select_foreign_keys cat schema table)\<rparr>
                     in if rejects srv (SelectIndexes schema table)
                        then Inl (DatabaseError (SelectIndexes schema table))
                        else Inr (si4\<lparr>indexes :=
                               (indexes si4)(tf \<mapsto> map index_of_row
                                  (select_indexes cat schema table))\<rparr>))"

fun extract_tables ::
  "server \<Rightarrow> (string \<times> string) list \<Rightarrow> schema_info \<Rightarrow> error + schema_info" where
  "extract_tables srv [] si = Inr si"
| "extract_tables srv ((schema, table) # rest) si =
     (case extract_table srv schema table si of
        Inl e \<Rightarrow> Inl e
      | Inr si' \<Rightarrow> extract_tables srv rest si')"

text \<open>
  The whole call.  \<^verbatim>\<open>conn.close()\<close> is the last statement before \<^verbatim>\<open>return\<close>; there is
  no \<^verbatim>\<open>try\<close> around the statements before it.
\<close>

definition get_postgres_schema_with_relations ::
  "server \<Rightarrow> conn_params \<Rightarrow> connections \<Rightarrow> (error + schema_info) \<times> connections" where
  "get_postgres_schema_with_relations srv params w =
     (if \<not> accepts srv params then (Inl OperationalError, w)
      else
        let w1 = w\<lparr>opened := opened w + 1\<rparr>
        in if rejects srv SelectTables then (Inl (DatabaseError SelectTables), w1)
           else
             (case extract_tables srv (select_tables (catalog_of srv)) empty_schema_info of
                Inl e \<Rightarrow> (Inl e, w1)
              | Inr si \<Rightarrow> (Inr si, w1\<lparr>closed := closed w1 + 1\<rparr>)))"

section \<open>The load button of the shell\<close>

text \<open>
  \<^verbatim>\<open>streamlit_db_visualizer\<close> calls the extraction inside \<^verbatim>\<open>try\<close>; the assignment to
  \<^verbatim>\<open>st.session_state['schema_info']\<close> follows the call inside the same \<^verbatim>\<open>try\<close>, and the
  handler only shows the error.  The session slot is a \<^typ>\<open>schema_info option\<close>
  (\<open>None\<close>: the key is absent); the messages shown are returned beside it.
\<close>

datatype message =
    Success nat
  | Info nat
  | Error error

definition load_schema ::
  "server \<Rightarrow> conn_params \<Rightarrow> schema_info option \<Rightarrow> connections
     \<Rightarrow> schema_info option \<times> message list \<times> connections" where
  "load_schema srv params session w =
     (case get_postgres_schema_with_relations srv params w of
        (Inl e, w') \<Rightarrow> (session, [Error e], w')
      | (Inr si, w') \<Rightarrow>
          (Some si, [Success (length (tables si)), Info (length (foreign_keys si))], w'))"

text \<open>The statements a complete run of the extraction sends, in order.\<close>

definition statements_issued :: "catalog \<Rightarrow> statement list" where
  "statements_issued cat =
     SelectTables #
     concat (map (\<lambda>(schema, table).
                    [SelectColumns schema table, SelectPrimaryKeys schema table,
                     SelectForeignKeys schema table, SelectIndexes schema table])
                 (select_tables cat))"

section \<open>\<^verbatim>\<open>generate_erd_graphviz\<close>\<close>

text \<open>
  A \<^verbatim>\<open>Digraph\<close> collects statements in call order: \<^verbatim>\<open>attr\<close>, \<^verbatim>\<open>node\<close> and \<^verbatim>\<open>edge\<close> each
  append one.  Python strings are kept as their UTF-8 bytes.
\<close>

datatype dot_statement =
    GraphAttr "(string \<times> string) list"
  | NodeStmt string string "(string \<times> string) list"
  | EdgeStmt string string string "(string \<times> string) list"

record digraph =
  comment :: string
  body :: "dot_statement list"

definition Digraph :: "string \<Rightarrow> digraph" where
  "Digraph c = \<lparr>comment = c, body = []\<rparr>"

definition attr :: "digraph \<Rightarrow> (string \<times> string) list \<Rightarrow> digraph" where
  "attr dot kv = dot\<lparr>body := body dot @ [GraphAttr kv]\<rparr>"

definition node :: "digraph \<Rightarrow> string \<Rightarrow> string \<Rightarrow> (string \<times> string) list \<Rightarrow> digraph" where
  "node dot n label kv = dot\<lparr>body := body dot @ [NodeStmt n label kv]\<rparr>"

definition edge ::
  "digraph \<Rightarrow> string \<Rightarrow> string \<Rightarrow> string \<Rightarrow> (string \<times> string) list \<Rightarrow> digraph" where
  "edge dot tail_name head_name label kv =
     dot\<lparr>body := body dot @ [EdgeStmt tail_name head_name label kv]\<rparr>"

definition quoted :: "string \<Rightarrow> string" where
  "quoted s = [CHR 0x27] @ s @ [CHR 0x27]"

definition key_sign :: string where
  "key_sign = [CHR 0xF0, CHR 0x9F, CHR 0x94, CHR 0x91]"

definition arrow :: string where
  "arrow = [CHR 0xE2, CHR 0x86, CHR 0x92]"

definition is_primary_key :: "schema_info \<Rightarrow> string \<Rightarrow> column_info \<Rightarrow> bool" where
  "is_primary_key si table col =
     (case primary_keys si table of None \<Rightarrow> False | Some pks \<Rightarrow> name col \<in> set pks)"

definition column_row :: "schema_info \<Rightarrow> string \<Rightarrow> column_info \<Rightarrow> string" where
  "column_row si table col =
     (let (col_name, bgcolor) =
            (if is_primary_key si table col
             then (key_sign @ '' '' @ name col, ''lightgreen'')
             else (name col, ''white''))
      in ''<TR><TD BGCOLOR='' @ quoted bgcolor @ ''>'' @ col_name @ ''</TD><TD>'' @ type col
           @ ''</TD></TR>'')"

definition table_label :: "schema_info \<Rightarrow> string \<Rightarrow> error + string" where
  "table_label si table =
     (let label = ''<<TABLE BORDER='' @ quoted ''1'' @ '' CELLBORDER='' @ quoted ''1''
                    @ '' CELLSPACING='' @ quoted ''0'' @ ''>''
                    @ ''<TR><TD COLSPAN='' @ quoted ''2'' @ '' BGCOLOR='' @ quoted ''lightblue''
                    @ ''><B>'' @ table @ ''</B></TD></TR>''
      in case columns si table of
           None \<Rightarrow> Inl (KeyError table)
         | Some cols \<Rightarrow> Inr (label @ concat (map (column_row si table) cols) @ ''</TABLE>>''))"

fun add_tables :: "schema_info \<Rightarrow> string list \<Rightarrow> digraph \<Rightarrow> error + digraph" where
  "add_tables si [] dot = Inr dot"
| "add_tables si (table # rest) dot =
     (case table_label si table of
        Inl e \<Rightarrow> Inl e
      | Inr label \<Rightarrow> add_tables si rest (node dot table label [(''shape'', ''plaintext'')]))"

definition fk_label :: "foreign_key \<Rightarrow> string" where
  "fk_label fk = from_column fk @ '' '' @ arrow @ '' '' @ to_column fk"

definition add_fk_edge :: "foreign_key \<Rightarrow> digraph \<Rightarrow> digraph" where
  "add_fk_edge fk dot =
     edge dot (from_table fk) (to_table fk) (fk_label fk)
       [(''color'', ''blue''), (''fontsize'', ''10'')]"

definition generate_erd_graphviz :: "schema_info \<Rightarrow> error + digraph" where
  "generate_erd_graphviz si =
     (let dot = attr (Digraph ''Database Schema'') [(''rankdir'', ''LR''), (''size'', ''12,8'')]
      in case add_tables si (tables si) dot of
           Inl e \<Rightarrow> Inl e
         | Inr dot' \<Rightarrow> Inr (fold add_fk_edge (foreign_keys si) dot'))"

text \<open>What a finished diagram holds: its node statements and its edge statements.\<close>

fun node_statements :: "dot_statement list \<Rightarrow> string list" where
  "node_statements [] = []"
| "node_statements (NodeStmt n l kv # rest) = n # node_statements rest"
| "node_statements (s # rest) = node_statements rest"

fun edge_statements :: "dot_statement list \<Rightarrow> (string \<times> string \<times> string) list" where
  "edge_statements [] = []"
| "edge_statements (EdgeStmt t h l kv # rest) = (t, h, l) # edge_statements rest"
| "edge_statements (s # rest) = edge_statements rest"

section \<open>\<^verbatim>\<open>generate_erd_networkx\<close>\<close>

text \<open>
  A \<^verbatim>\<open>networkx.DiGraph\<close> keeps its nodes in insertion order, each with an attribute
  dictionary, of which only \<^verbatim>\<open>size\<close> is ever set (\<open>None\<close>: the key is absent), and at most
  one edge for an ordered pair of nodes.  \<^verbatim>\<open>add_node\<close> on a node already there updates its
  attributes in place; \<^verbatim>\<open>add_edge\<close> creates either end that is missing, with no attributes.

  In the table loop the first assignment, \<^verbatim>\<open>node_size = len(...get(table, [])) * 300\<close>, is
  never read.  The node is added with \<^verbatim>\<open>size=len(schema_info['columns'][table]) * 100\<close>,
  and that index raises \<^verbatim>\<open>KeyError\<close> for a table without an entry.
\<close>

record nx_digraph =
  nodes :: "(string \<times> int option) list"
  edges :: "(string \<times> string) list"

definition DiGraph :: nx_digraph where
  "DiGraph = \<lparr>nodes = [], edges = []\<rparr>"

definition add_node :: "nx_digraph \<Rightarrow> string \<Rightarrow> int \<Rightarrow> nx_digraph" where
  "add_node G n size_attr = G\<lparr>nodes := AList.update n (Some size_attr) (nodes G)\<rparr>"

definition ensure_node :: "string \<Rightarrow> (string \<times> int option) list \<Rightarrow> (string \<times> int option) list" where
  "ensure_node n ns = (if n \<in> set (map fst ns) then ns else ns @ [(n, None)])"

definition add_edge :: "nx_digraph \<Rightarrow> string \<Rightarrow> string \<Rightarrow> nx_digraph" where
  "add_edge G u v =
     \<lparr>nodes = ensure_node v (ensure_node u (nodes G)),
      edges = (if (u, v) \<in> set (edges G) then edges G else edges G @ [(u, v)])\<rparr>"

text \<open>
  Iterating \<^verbatim>\<open>G.edges\<close> goes through the nodes in their order and, for each, through its
  successors in the order the edges were added; that is the list the edges are drawn from.
\<close>

definition edge_view :: "nx_digraph \<Rightarrow> (string \<times> string) list" where
  "edge_view G = concat (map (\<lambda>u. filter (\<lambda>e. fst e = u) (edges G)) (map fst (nodes G)))"

fun add_table_nodes :: "schema_info \<Rightarrow> string list \<Rightarrow> nx_digraph \<Rightarrow> error + nx_digraph" where
  "add_table_nodes si [] G = Inr G"
| "add_table_nodes si (table # rest) G =
     (case columns si table of
        None \<Rightarrow> Inl (KeyError table)
      | Some cols \<Rightarrow> add_table_nodes si rest (add_node G table (int (length cols) * 100)))"

type_synonym edge_labels = "((string \<times> string) \<times> string) list"

definition add_fk :: "foreign_key \<Rightarrow> nx_digraph \<times> edge_labels \<Rightarrow> nx_digraph \<times> edge_labels" where
  "add_fk fk acc =
     (case acc of (G, labels) \<Rightarrow>
        (add_edge G (from_table fk) (to_table fk),
         AList.update (from_table fk, to_table fk) (fk_label fk) labels))"

text \<open>
  The figure: what each drawing call is given.  \<^verbatim>\<open>nx.spring_layout\<close> is the library's; it
  is a parameter, applied to the graph, \<^verbatim>\<open>k\<close>, \<^verbatim>\<open>iterations\<close> and \<^verbatim>\<open>seed\<close>.
\<close>

record 'p figure =
  pos :: 'p
  drawn_nodes :: "string list"
  node_sizes :: "int list"
  drawn_edges :: "(string \<times> string) list"
  drawn_labels :: "string list"
  drawn_edge_labels :: edge_labels
  title :: string

definition graph_title :: string where
  "graph_title =
     [CHR 0xD0, CHR 0x93, CHR 0xD1, CHR 0x80, CHR 0xD0, CHR 0xB0, CHR 0xD1, CHR 0x84, CHR 0x20,
      CHR 0xD1, CHR 0x81, CHR 0xD0, CHR 0xB2, CHR 0xD1, CHR 0x8F, CHR 0xD0, CHR 0xB7, CHR 0xD0,
      CHR 0xB5, CHR 0xD0, CHR 0xB9, CHR 0x20, CHR 0xD0, CHR 0xB1, CHR 0xD0, CHR 0xB0, CHR 0xD0,
      CHR 0xB7, CHR 0xD1, CHR 0x8B, CHR 0x20, CHR 0xD0, CHR 0xB4, CHR 0xD0, CHR 0xB0, CHR 0xD0,
      CHR 0xBD, CHR 0xD0, CHR 0xBD, CHR 0xD1, CHR 0x8B, CHR 0xD1, CHR 0x85]"

definition size_of_node :: "string \<times> int option \<Rightarrow> int" where
  "size_of_node n = (case snd n of None \<Rightarrow> 2000 | Some s \<Rightarrow> s)"

definition generate_erd_networkx ::
  "(nx_digraph \<Rightarrow> int \<Rightarrow> nat \<Rightarrow> nat \<Rightarrow> 'p) \<Rightarrow> schema_info \<Rightarrow> error + 'p figure" where
  "generate_erd_networkx spring_layout si =
     (case add_table_nodes si (tables si) DiGraph of
        Inl e \<Rightarrow> Inl e
      | Inr G0 \<Rightarrow>
          (case fold add_fk (foreign_keys si) (G0, []) of (G, labels) \<Rightarrow>
             Inr \<lparr>pos = spring_layout G 3 50 42,
                  drawn_nodes = map fst (nodes G),
                  node_sizes = map size_of_node (nodes G),
                  drawn_edges = edge_view G,
                  drawn_labels = map fst (nodes G),
                  drawn_edge_labels = labels,
                  title = graph_title\<rparr>))"

section \<open>Predicates used in the statements\<close>

text \<open>Both renderers index \<^verbatim>\<open>schema_info['columns']\<close> with every element of \<^verbatim>\<open>tables\<close>.\<close>

definition has_columns :: "schema_info \<Rightarrow> bool" where
  "has_columns si = (\<forall>t \<in> set (tables si). columns si t \<noteq> None)"

text \<open>The graph alone, when the edge loop of \<^verbatim>\<open>generate_erd_networkx\<close> has run.\<close>

definition add_fk_edges :: "foreign_key list \<Rightarrow> nx_digraph \<Rightarrow> nx_digraph" where
  "add_fk_edges fks G = fold (\<lambda>fk G. add_edge G (from_table fk) (to_table fk)) fks G"

text \<open>
  The rows that the three-way join of the foreign-key statement brings together: the
  constraints it keeps for a table, and for one constraint the rows of
  \<^verbatim>\<open>key_column_usage\<close> (its local columns) and of \<^verbatim>\<open>constraint_column_usage\<close> (its
  referenced columns) that satisfy the two \<^verbatim>\<open>ON\<close> conditions.
\<close>

definition fk_constraints_of :: "catalog \<Rightarrow> string \<Rightarrow> string \<Rightarrow> table_constraints_row list" where
  "fk_constraints_of cat schema table =
     filter (\<lambda>tc. tc_constraint_type tc = ''FOREIGN KEY'' \<and> tc_table_schema tc = schema
                \<and> tc_table_name tc = table) (is_table_constraints cat)"

definition local_columns_of :: "catalog \<Rightarrow> table_constraints_row \<Rightarrow> key_column_usage_row list" where
  "local_columns_of cat tc =
     filter (\<lambda>kcu. tc_constraint_name tc = kcu_constraint_name kcu
                 \<and> tc_table_schema tc = kcu_table_schema kcu) (is_key_column_usage cat)"

definition referenced_columns_of ::
  "catalog \<Rightarrow> table_constraints_row \<Rightarrow> constraint_column_usage_row list" where
  "referenced_columns_of cat tc =
     filter (\<lambda>ccu. ccu_constraint_name ccu = tc_constraint_name tc)
       (is_constraint_column_usage cat)"

definition pairings ::
  "key_column_usage_row list \<Rightarrow> constraint_column_usage_row list
     \<Rightarrow> (string \<times> string \<times> string \<times> string) list" where
  "pairings ks cs =
     [(kcu_column_name kcu, ccu_table_schema ccu, ccu_table_name ccu, ccu_column_name ccu).
        kcu \<leftarrow> ks, ccu \<leftarrow> cs]"

text \<open>The four statements of one pass of the loop are all accepted.\<close>

definition row_accepted :: "server \<Rightarrow> string \<times> string \<Rightarrow> bool" where
  "row_accepted srv row =
     (case row of (schema, table) \<Rightarrow>
        \<not> rejects srv (SelectColumns schema table) \<and> \<not> rejects srv (SelectPrimaryKeys schema table)
        \<and> \<not> rejects srv (SelectForeignKeys schema table) \<and> \<not> rejects srv (SelectIndexes schema table))"

text \<open>
  \<^verbatim>\<open>(table_schema, table_name, ordinal_position)\<close> is a key of
  \<^verbatim>\<open>information_schema.columns\<close>: no two columns of a table share a position.
\<close>

definition position_is_key :: "catalog \<Rightarrow> bool" where
  "position_is_key cat =
     distinct (map (\<lambda>r. (c_table_schema r, c_table_name r, c_ordinal_position r))
       (is_columns cat))"

text \<open>The two invariants of the extraction loop.\<close>

definition columns_ordered :: "bool \<Rightarrow> schema_info \<Rightarrow> bool" where
  "columns_ordered strict si =
     (\<forall>t \<in> set (tables si). \<exists>cs. columns si t = Some cs \<and> sorted (map position cs)
         \<and> (strict \<longrightarrow> sorted_wrt (<) (map position cs)))"

definition keys_among_columns :: "schema_info \<Rightarrow> bool" where
  "keys_among_columns si =
     (\<forall>t pks. primary_keys si t = Some pks \<longrightarrow>
        (\<exists>cs. columns si t = Some cs \<and> set pks \<subseteq> set (map name cs)))"

section \<open>A database to run the code on\<close>

text \<open>
  Two tables: \<^verbatim>\<open>lines\<close> with the primary key \<^verbatim>\<open>(order_id, line_no)\<close>, and \<^verbatim>\<open>items\<close>
  with the primary key \<^verbatim>\<open>id\<close> and one foreign key of two columns,
  \<^verbatim>\<open>(order_id, line_no)\<close>, to \<^verbatim>\<open>lines\<close>.  A column of \<^verbatim>\<open>items\<close> was dropped, so its
  positions are 1, 2 and 4.
\<close>

definition shop_catalog :: catalog where
  "shop_catalog =
     \<lparr>is_tables =
        [\<lparr>t_table_schema = ''public'', t_table_name = ''lines'', t_table_type = ''BASE TABLE''\<rparr>,
         \<lparr>t_table_schema = ''public'', t_table_name = ''items'', t_table_type = ''BASE TABLE''\<rparr>,
         \<lparr>t_table_schema = ''public'', t_table_name = ''open_lines'', t_table_type = ''VIEW''\<rparr>,
         \<lparr>t_table_schema = ''pg_catalog'', t_table_name = ''pg_class'', t_table_type = ''BASE TABLE''\<rparr>],
      is_columns =
        [\<lparr>c_table_schema = ''public'', c_table_name = ''items'', c_column_name = ''line_no'',
          c_data_type = ''integer'', c_is_nullable = ''YES'', c_ordinal_position = 4\<rparr>,
         \<lparr>c_table_schema = ''public'', c_table_name = ''items'', c_column_name = ''order_id'',
          c_data_type = ''integer'', c_is_nullable = ''YES'', c_ordinal_position = 2\<rparr>,
         \<lparr>c_table_schema = ''public'', c_table_name = ''items'', c_column_name = ''id'',
          c_data_type = ''integer'', c_is_nullable = ''NO'', c_ordinal_position = 1\<rparr>,
         \<lparr>c_table_schema = ''public'', c_table_name = ''lines'', c_column_name = ''order_id'',
          c_data_type = ''integer'', c_is_nullable = ''NO'', c_ordinal_position = 1\<rparr>,
         \<lparr>c_table_schema = ''public'', c_table_name = ''lines'', c_column_name = ''line_no'',
          c_data_type = ''integer'', c_is_nullable = ''NO'', c_ordinal_position = 2\<rparr>],
      is_table_constraints =
        [\<lparr>tc_constraint_name = ''items_pkey'', tc_table_schema = ''public'',
          tc_table_name = ''items'', tc_constraint_type = ''PRIMARY KEY''\<rparr>,
         \<lparr>tc_constraint_name = ''lines_pkey'', tc_table_schema = ''public'',
          tc_table_name = ''lines'', tc_constraint_type = ''PRIMARY KEY''\<rparr>,
         \<lparr>tc_constraint_name = ''items_line_fkey'', tc_table_schema = ''public'',
          tc_table_name = ''items'', tc_constraint_type = ''FOREIGN KEY''\<rparr>],
      is_key_column_usage =
        [\<lparr>kcu_constraint_name = ''items_pkey'', kcu_table_schema = ''public'',
          kcu_column_name = ''id''\<rparr>,
         \<lparr>kcu_constraint_name = ''lines_pkey'', kcu_table_schema = ''public'',
          kcu_column_name = ''order_id''\<rparr>,
         \<lparr>kcu_constraint_name = ''lines_pkey'', kcu_table_schema = ''public'',
          kcu_column_name = ''line_no''\<rparr>,
         \<lparr>kcu_constraint_name = ''items_line_fkey'', kcu_table_schema = ''public'',
          kcu_column_name = ''order_id''\<rparr>,
         \<lparr>kcu_constraint_name = ''items_line_fkey'', kcu_table_schema = ''public'',
          kcu_column_name = ''line_no''\<rparr>],
      is_constraint_column_usage =
        [\<lparr>ccu_constraint_name = ''items_pkey'', ccu_table_schema = ''public'',
          ccu_table_name = ''items'', ccu_column_name = ''id''\<rparr>,
         \<lparr>ccu_constraint_name = ''lines_pkey'', ccu_table_schema = ''public'',
          ccu_table_name = ''lines'', ccu_column_name = ''order_id''\<rparr>,
         \<lparr>ccu_constraint_name = ''lines_pkey'', ccu_table_schema = ''public'',
          ccu_table_name = ''lines'', ccu_column_name = ''line_no''\<rparr>,
         \<lparr>ccu_constraint_name = ''items_line_fkey'', ccu_table_schema = ''public'',
          ccu_table_name = ''lines'', ccu_column_name = ''order_id''\<rparr>,
         \<lparr>ccu_constraint_name = ''items_line_fkey'', ccu_table_schema = ''public'',
          ccu_table_name = ''lines'', ccu_column_name = ''line_no''\<rparr>],
      pg_indexes =
        [\<lparr>ix_schemaname = ''public'', ix_tablename = ''items'', ix_indexname = ''items_pkey'',
          ix_indexdef = ''CREATE UNIQUE INDEX items_pkey ON public.items USING btree (id)''\<rparr>]\<rparr>"

definition default_params :: conn_params where
  "default_params =
     \<lparr>host = ''158.160.185.213'', port = 5432, database = ''demo'', user = ''postgres'',
      password = ''123''\<rparr>"

definition shop_server :: server where
  "shop_server = \<lparr>accepts = (\<lambda>p. True), rejects = (\<lambda>q. False), catalog_of = shop_catalog\<rparr>"

text \<open>The same server, refusing the column statement of the second table.\<close>

definition failing_server :: server where
  "failing_server =
     \<lparr>accepts = (\<lambda>p. True), rejects = (\<lambda>q. q = SelectColumns ''public'' ''lines''),
      catalog_of = shop_catalog\<rparr>"

definition no_connections :: connections where
  "no_connections = \<lparr>opened = 0, closed = 0\<rparr>"

definition items_line_fkey :: table_constraints_row where
  "items_line_fkey =
     \<lparr>tc_constraint_name = ''items_line_fkey'', tc_table_schema = ''public'',
      tc_table_name = ''items'', tc_constraint_type = ''FOREIGN KEY''\<rparr>"

definition integer_column :: "string \<Rightarrow> string \<Rightarrow> int \<Rightarrow> column_info" where
  "integer_column n nl p = \<lparr>name = n, type = ''integer'', nullable = nl, position = p\<rparr>"

definition items_to_lines :: "string \<Rightarrow> string \<Rightarrow> foreign_key" where
  "items_to_lines fc tc =
     \<lparr>from_table = ''public.items'', from_column = fc, to_table = ''public.lines'',
      to_column = tc\<rparr>"

definition shop_model :: schema_info where
  "shop_model =
     \<lparr>tables = [''public.items'', ''public.lines''],
      columns =
        [''public.items'' \<mapsto>
           [integer_column ''id'' ''NO'' 1, integer_column ''order_id'' ''YES'' 2,
            integer_column ''line_no'' ''YES'' 4],
         ''public.lines'' \<mapsto>
           [integer_column ''order_id'' ''NO'' 1, integer_column ''line_no'' ''NO'' 2]],
      primary_keys =
        [''public.items'' \<mapsto> [''id''], ''public.lines'' \<mapsto> [''order_id'', ''line_no'']],
      foreign_keys =
        [items_to_lines ''order_id'' ''order_id'', items_to_lines ''order_id'' ''line_no'',
         items_to_lines ''line_no'' ''order_id'', items_to_lines ''line_no'' ''line_no''],
      indexes =
        [''public.items'' \<mapsto>
           [\<lparr>index_name = ''items_pkey'', index_definition =
               ''CREATE UNIQUE INDEX items_pkey ON public.items USING btree (id)''\<rparr>],
         ''public.lines'' \<mapsto> []]\<rparr>"

text \<open>A layout that places nothing, to run \<^verbatim>\<open>generate_erd_networkx\<close> with.\<close>

definition no_layout :: "nx_digraph \<Rightarrow> int \<Rightarrow> nat \<Rightarrow> nat \<Rightarrow> unit" where
  "no_layout G k iterations seed = ()"

section \<open>The extraction: one pass, the loop, the call\<close>

lemma extract_table_Inr:
  "extract_table srv schema table si = Inr si' \<longleftrightarrow>
     \<not> rejects srv (SelectColumns schema table) \<and> \<not> rejects srv (SelectPrimaryKeys schema table)
     \<and> \<not> rejects srv (SelectForeignKeys schema table) \<and> \<not> rejects srv (SelectIndexes schema table)
     \<and> si' = si\<lparr>tables := tables si @ [table_full schema table],
            columns := (columns si)(table_full schema table \<mapsto>
               map column_of_row (select_columns (catalog_of srv) schema table)),
            primary_keys := (primary_keys si)(table_full schema table \<mapsto>
               select_primary_keys (catalog_of srv) schema table),
            foreign_keys := foreign_keys si @ map (foreign_key_of_row schema table)
               (select_foreign_keys (catalog_of srv) schema table),
            indexes := (indexes si)(table_full schema table \<mapsto>
               map index_of_row (select_indexes (catalog_of srv) schema table))\<rparr>"
  by (auto simp: extract_table_def Let_def)

lemma extract_table_Inl:
  "extract_table srv schema table si = Inl e \<Longrightarrow>
     \<exists>q \<in> {SelectColumns schema table, SelectPrimaryKeys schema table,
             SelectForeignKeys schema table, SelectIndexes schema table}.
       rejects srv q \<and> e = DatabaseError q"
  by (auto simp: extract_table_def Let_def split: if_splits)

lemma get_Inr:
  "get_postgres_schema_with_relations srv params w = (Inr si, w') \<longleftrightarrow>
     accepts srv params \<and> \<not> rejects srv SelectTables
     \<and> extract_tables srv (select_tables (catalog_of srv)) empty_schema_info = Inr si
     \<and> w' = w\<lparr>opened := opened w + 1, closed := closed w + 1\<rparr>"
  by (auto simp: get_postgres_schema_with_relations_def Let_def split: sum.splits)

lemma extract_tables_invariant:
  assumes "extract_tables srv rows si = Inr si'"
      and "P si"
      and "\<And>schema table s s'. P s \<Longrightarrow> extract_table srv schema table s = Inr s' \<Longrightarrow> P s'"
  shows "P si'"
  using assms(1,2)
proof (induction rows arbitrary: si)
  case Nil
  then show ?case by simp
next
  case (Cons row rows)
  obtain schema table where row: "row = (schema, table)" by (cases row)
  from Cons.prems(1) row obtain s1 where
    s1: "extract_table srv schema table si = Inr s1" and
    rest: "extract_tables srv rows s1 = Inr si'"
    by (auto split: sum.splits)
  from assms(3) [OF Cons.prems(2) s1] have "P s1" .
  with Cons.IH rest show ?case by blast
qed

lemma extract_tables_succeeds_iff:
  "(\<exists>si'. extract_tables srv rows si = Inr si') \<longleftrightarrow> (\<forall>row \<in> set rows. row_accepted srv row)"
proof (induction rows arbitrary: si)
  case Nil
  then show ?case by simp
next
  case (Cons row rows)
  obtain schema table where row: "row = (schema, table)" by (cases row)
  show ?case
  proof (cases "extract_table srv schema table si")
    case (Inl e)
    with extract_table_Inl [OF Inl] show ?thesis
      by (auto simp: row row_accepted_def)
  next
    case (Inr s1)
    then have "row_accepted srv row"
      by (simp add: extract_table_Inr row row_accepted_def)
    with Inr Cons.IH [of s1] show ?thesis by (simp add: row)
  qed
qed

lemma sorted_select_columns:
  "sorted (map position (map column_of_row (select_columns cat schema table)))"
proof -
  have "map position (map column_of_row (select_columns cat schema table)) =
        map c_ordinal_position (sort_key c_ordinal_position
          (filter (\<lambda>r. c_table_schema r = schema \<and> c_table_name r = table) (is_columns cat)))"
    by (simp add: select_columns_def column_of_row_def comp_def)
  then show ?thesis by simp
qed

lemma distinct_select_columns:
  assumes "position_is_key cat"
  shows "distinct (map position (map column_of_row (select_columns cat schema table)))"
proof -
  let ?rows = "filter (\<lambda>r. c_table_schema r = schema \<and> c_table_name r = table) (is_columns cat)"
  have eq: "map position (map column_of_row (select_columns cat schema table)) =
        map c_ordinal_position (sort_key c_ordinal_position ?rows)"
    by (simp add: select_columns_def column_of_row_def comp_def)
  from assms have d: "distinct (is_columns cat)"
    and inj: "inj_on (\<lambda>r. (c_table_schema r, c_table_name r, c_ordinal_position r))
                (set (is_columns cat))"
    by (simp_all add: position_is_key_def distinct_map)
  have "inj_on c_ordinal_position (set ?rows)"
  proof (rule inj_onI)
    fix x y assume "x \<in> set ?rows" "y \<in> set ?rows" "c_ordinal_position x = c_ordinal_position y"
    then have "x \<in> set (is_columns cat)" "y \<in> set (is_columns cat)"
      "(c_table_schema x, c_table_name x, c_ordinal_position x) =
       (c_table_schema y, c_table_name y, c_ordinal_position y)"
      by simp_all
    then show "x = y" by (rule inj_onD [OF inj, rotated])
  qed
  with d have "distinct (map c_ordinal_position (sort_key c_ordinal_position ?rows))"
    by (simp add: distinct_map)
  with eq show ?thesis by simp
qed

lemma columns_ordered_step:
  assumes "columns_ordered strict si"
      and "extract_table srv schema table si = Inr si'"
      and "strict \<longrightarrow> position_is_key (catalog_of srv)"
  shows "columns_ordered strict si'"
proof -
  let ?cs = "map column_of_row (select_columns (catalog_of srv) schema table)"
  have new: "sorted (map position ?cs) \<and> (strict \<longrightarrow> sorted_wrt (<) (map position ?cs))"
    using sorted_select_columns [of "catalog_of srv" schema table]
      distinct_select_columns [of "catalog_of srv" schema table] assms(3)
    by (simp only: strict_sorted_iff) blast
  from assms(2) have
    t': "tables si' = tables si @ [table_full schema table]" and
    c': "columns si' = (columns si)(table_full schema table \<mapsto> ?cs)"
    by (simp_all add: extract_table_Inr)
  show ?thesis
    unfolding columns_ordered_def
  proof
    fix t assume "t \<in> set (tables si')"
    show "\<exists>cs. columns si' t = Some cs \<and> sorted (map position cs)
            \<and> (strict \<longrightarrow> sorted_wrt (<) (map position cs))"
    proof (cases "t = table_full schema table")
      case True
      with new c' show ?thesis by simp
    next
      case False
      with \<open>t \<in> set (tables si')\<close> t' have "t \<in> set (tables si)" by simp
      with assms(1) False c' show ?thesis by (simp add: columns_ordered_def)
    qed
  qed
qed

lemma select_primary_keys_subset:
  "set (select_primary_keys cat schema table)
     \<subseteq> set (map name (map column_of_row (select_columns cat schema table)))"
proof -
  have "set (map name (map column_of_row (select_columns cat schema table))) =
        c_column_name ` {r \<in> set (is_columns cat). c_table_schema r = schema \<and> c_table_name r = table}"
    by (auto simp: select_columns_def column_of_row_def comp_def image_iff)
  moreover have "set (select_primary_keys cat schema table) \<subseteq>
        c_column_name ` {r \<in> set (is_columns cat). c_table_schema r = schema \<and> c_table_name r = table}"
    by (force simp: select_primary_keys_def split: if_splits)
  ultimately show ?thesis by (simp only:)
qed

lemma keys_among_columns_step:
  assumes "keys_among_columns si" and "extract_table srv schema table si = Inr si'"
  shows "keys_among_columns si'"
proof -
  from assms(2) have
    c': "columns si' = (columns si)(table_full schema table \<mapsto>
           map column_of_row (select_columns (catalog_of srv) schema table))" and
    p': "primary_keys si' = (primary_keys si)(table_full schema table \<mapsto>
           select_primary_keys (catalog_of srv) schema table)"
    by (simp_all add: extract_table_Inr)
  show ?thesis
    unfolding keys_among_columns_def
  proof (intro allI impI)
    fix t pks assume pk: "primary_keys si' t = Some pks"
    show "\<exists>cs. columns si' t = Some cs \<and> set pks \<subseteq> set (map name cs)"
    proof (cases "t = table_full schema table")
      case True
      with pk p' have "pks = select_primary_keys (catalog_of srv) schema table" by simp
      with True c' select_primary_keys_subset [of "catalog_of srv" schema table]
      show ?thesis by (simp del: set_map)
    next
      case False
      with pk p' have "primary_keys si t = Some pks" by simp
      with assms(1) False c' show ?thesis by (simp add: keys_among_columns_def)
    qed
  qed
qed

lemma statement_rejected_no_close:
  assumes "get_postgres_schema_with_relations srv params w = (Inl (DatabaseError q), w')"
  shows "opened w' = opened w + 1 \<and> closed w' = closed w"
  using assms
  by (auto simp: get_postgres_schema_with_relations_def Let_def split: if_splits sum.splits)

lemma get_succeeds_iff:
  "(\<exists>si w'. get_postgres_schema_with_relations srv params w = (Inr si, w')) \<longleftrightarrow>
     accepts srv params \<and> (\<forall>q \<in> set (statements_issued (catalog_of srv)). \<not> rejects srv q)"
proof -
  have "(\<forall>q \<in> set (statements_issued (catalog_of srv)). \<not> rejects srv q) \<longleftrightarrow>
        \<not> rejects srv SelectTables \<and> (\<forall>row \<in> set (select_tables (catalog_of srv)). row_accepted srv row)"
    by (auto simp: statements_issued_def row_accepted_def)
  then show ?thesis
    using extract_tables_succeeds_iff [of srv "select_tables (catalog_of srv)" empty_schema_info]
    by (auto simp: get_Inr)
qed

section \<open>The extraction run on the example\<close>

lemma select_tables_shop:
  "select_tables shop_catalog = [(''public'', ''items''), (''public'', ''lines'')]"
  by code_simp

lemma select_columns_items:
  "select_columns shop_catalog ''public'' ''items'' =
     [(''id'', ''integer'', ''NO'', 1), (''order_id'', ''integer'', ''YES'', 2),
      (''line_no'', ''integer'', ''YES'', 4)]"
  by code_simp

lemma select_columns_lines:
  "select_columns shop_catalog ''public'' ''lines'' =
     [(''order_id'', ''integer'', ''NO'', 1), (''line_no'', ''integer'', ''NO'', 2)]"
  by code_simp

lemma select_primary_keys_shop:
  "select_primary_keys shop_catalog ''public'' ''items'' = [''id'']"
  "select_primary_keys shop_catalog ''public'' ''lines'' = [''order_id'', ''line_no'']"
  by code_simp+

lemma select_foreign_keys_shop:
  "select_foreign_keys shop_catalog ''public'' ''items'' =
     [(''order_id'', ''public'', ''lines'', ''order_id''),
      (''order_id'', ''public'', ''lines'', ''line_no''),
      (''line_no'', ''public'', ''lines'', ''order_id''),
      (''line_no'', ''public'', ''lines'', ''line_no'')]"
  "select_foreign_keys shop_catalog ''public'' ''lines'' = []"
  by code_simp+

lemma select_indexes_shop:
  "select_indexes shop_catalog ''public'' ''items'' =
     [(''items_pkey'', ''CREATE UNIQUE INDEX items_pkey ON public.items USING btree (id)'')]"
  "select_indexes shop_catalog ''public'' ''lines'' = []"
  by code_simp+

lemma shop_extraction:
  "get_postgres_schema_with_relations shop_server default_params no_connections =
     (Inr shop_model, \<lparr>opened = 1, closed = 1\<rparr>)"
  by (simp add: get_postgres_schema_with_relations_def shop_server_def no_connections_def
      select_tables_shop extract_table_def Let_def empty_schema_info_def table_full_def
      select_columns_items select_columns_lines select_primary_keys_shop
      select_foreign_keys_shop select_indexes_shop column_of_row_def foreign_key_of_row_def
      index_of_row_def shop_model_def integer_column_def items_to_lines_def)

lemma position_is_key_shop: "position_is_key shop_catalog"
  by (simp add: position_is_key_def shop_catalog_def)

section \<open>The foreign-key statement as a join\<close>

lemma concat_map_if:
  "concat (map (\<lambda>x. if P x then g x else []) xs) = concat (map g (filter P xs))"
  by (induction xs) simp_all

lemma concat_map_if_single:
  "concat (map (\<lambda>x. if P x then [g x] else []) xs) = map g (filter P xs)"
  by (induction xs) simp_all

lemma concat_map_nil: "concat (map (\<lambda>x. []) xs) = []"
  by (induction xs) simp_all

lemma guarded_join:
  "concat (map (\<lambda>k. if P k then concat (map (\<lambda>c. if Q c then if b then [g k c] else [] else []) cs)
                       else []) ks)
     = (if b then concat (map (\<lambda>k. map (g k) (filter Q cs)) (filter P ks)) else [])"
  by (cases b) (simp_all add: concat_map_if concat_map_if_single concat_map_nil)

lemma select_foreign_keys_by_constraint:
  "select_foreign_keys cat schema table =
     concat (map (\<lambda>tc. pairings (local_columns_of cat tc) (referenced_columns_of cat tc))
       (fk_constraints_of cat schema table))"
  unfolding select_foreign_keys_def fk_constraints_of_def pairings_def local_columns_of_def
    referenced_columns_of_def guarded_join
  by (simp only: concat_map_if)

lemma length_pairings: "length (pairings ks cs) = length ks * length cs"
  by (induction ks) (simp_all add: pairings_def)

lemma extract_tables_foreign_keys:
  "extract_tables srv rows si = Inr si' \<Longrightarrow>
     foreign_keys si' = foreign_keys si @
       concat (map (\<lambda>(schema, table). map (foreign_key_of_row schema table)
                      (select_foreign_keys (catalog_of srv) schema table)) rows)"
proof (induction rows arbitrary: si)
  case Nil
  then show ?case by simp
next
  case (Cons row rows)
  obtain schema table where row: "row = (schema, table)" by (cases row)
  from Cons.prems row obtain s1 where
    s1: "extract_table srv schema table si = Inr s1" and
    rest: "extract_tables srv rows s1 = Inr si'"
    by (auto split: sum.splits)
  from s1 have "foreign_keys s1 = foreign_keys si @ map (foreign_key_of_row schema table)
      (select_foreign_keys (catalog_of srv) schema table)"
    by (simp add: extract_table_Inr)
  with Cons.IH [OF rest] show ?case by (simp add: row)
qed

section \<open>The two renderers\<close>

lemma node_statements_append:
  "node_statements (xs @ ys) = node_statements xs @ node_statements ys"
  by (induction xs rule: node_statements.induct) simp_all

lemma edge_statements_append:
  "edge_statements (xs @ ys) = edge_statements xs @ edge_statements ys"
  by (induction xs rule: edge_statements.induct) simp_all

lemma table_label_Inr:
  "columns si t \<noteq> None \<Longrightarrow> \<exists>l. table_label si t = Inr l"
  by (auto simp: table_label_def Let_def)

lemma add_tables_succeeds:
  assumes "\<forall>t \<in> set ts. columns si t \<noteq> None"
  shows "\<exists>dot'. add_tables si ts dot = Inr dot'
           \<and> node_statements (body dot') = node_statements (body dot) @ ts
           \<and> edge_statements (body dot') = edge_statements (body dot)"
  using assms
proof (induction ts arbitrary: dot)
  case Nil
  then show ?case by simp
next
  case (Cons t ts)
  then obtain l where l: "table_label si t = Inr l"
    using table_label_Inr [of si t] by auto
  let ?d = "node dot t l [(''shape'', ''plaintext'')]"
  from Cons.IH [of ?d] Cons.prems obtain dot' where
    "add_tables si ts ?d = Inr dot'"
    "node_statements (body dot') = node_statements (body ?d) @ ts"
    "edge_statements (body dot') = edge_statements (body ?d)"
    by auto
  then show ?case
    by (simp add: l node_def node_statements_append edge_statements_append)
qed

lemma fold_add_fk_edge:
  "edge_statements (body (fold add_fk_edge fks dot)) =
     edge_statements (body dot) @ map (\<lambda>fk. (from_table fk, to_table fk, fk_label fk)) fks
   \<and> node_statements (body (fold add_fk_edge fks dot)) = node_statements (body dot)"
  by (induction fks arbitrary: dot)
    (simp_all add: add_fk_edge_def edge_def node_statements_append edge_statements_append)

lemma graphviz_result:
  assumes "has_columns si"
  shows "\<exists>dot. generate_erd_graphviz si = Inr dot
           \<and> node_statements (body dot) = tables si
           \<and> edge_statements (body dot) =
               map (\<lambda>fk. (from_table fk, to_table fk, fk_label fk)) (foreign_keys si)"
proof -
  let ?d = "attr (Digraph ''Database Schema'') [(''rankdir'', ''LR''), (''size'', ''12,8'')]"
  from assms add_tables_succeeds [of "tables si" si ?d] obtain dot' where
    d: "add_tables si (tables si) ?d = Inr dot'"
       "node_statements (body dot') = node_statements (body ?d) @ tables si"
       "edge_statements (body dot') = edge_statements (body ?d)"
    by (auto simp: has_columns_def)
  with fold_add_fk_edge [of "foreign_keys si" dot'] show ?thesis
    by (simp add: generate_erd_graphviz_def attr_def Digraph_def)
qed

lemma update_absent: "k \<notin> fst ` set al \<Longrightarrow> AList.update k v al = al @ [(k, v)]"
  by (induction al) auto

lemma add_table_nodes_succeeds:
  assumes "\<forall>t \<in> set ts. columns si t \<noteq> None"
  shows "\<exists>G'. add_table_nodes si ts G = Inr G' \<and> edges G' = edges G
           \<and> (\<forall>k. map_of (nodes G') k =
                 (if k \<in> set ts then Some (Some (int (length (the (columns si k))) * 100))
                  else map_of (nodes G) k))
           \<and> (distinct (map fst (nodes G) @ ts) \<longrightarrow> map fst (nodes G') = map fst (nodes G) @ ts)"
  using assms
proof (induction ts arbitrary: G)
  case Nil
  then show ?case by simp
next
  case (Cons t ts)
  then obtain cs where cs: "columns si t = Some cs" by auto
  let ?G = "add_node G t (int (length cs) * 100)"
  from Cons.IH [of ?G] Cons.prems obtain G' where
    G': "add_table_nodes si ts ?G = Inr G'" "edges G' = edges ?G"
        "\<forall>k. map_of (nodes G') k =
                 (if k \<in> set ts then Some (Some (int (length (the (columns si k))) * 100))
                  else map_of (nodes ?G) k)"
        "distinct (map fst (nodes ?G) @ ts) \<longrightarrow> map fst (nodes G') = map fst (nodes ?G) @ ts"
    by auto
  have 1: "add_table_nodes si (t # ts) G = Inr G'" using G'(1) cs by simp
  have 2: "edges G' = edges G" using G'(2) by (simp add: add_node_def)
  have 3: "\<forall>k. map_of (nodes G') k =
                 (if k \<in> set (t # ts) then Some (Some (int (length (the (columns si k))) * 100))
                  else map_of (nodes G) k)"
    using G'(3) cs by (auto simp: add_node_def update_conv')
  have 4: "distinct (map fst (nodes G) @ t # ts) \<longrightarrow> map fst (nodes G') = map fst (nodes G) @ t # ts"
  proof
    assume d: "distinct (map fst (nodes G) @ t # ts)"
    then have "t \<notin> fst ` set (nodes G)" by auto
    then have "nodes ?G = nodes G @ [(t, Some (int (length cs) * 100))]"
      by (simp add: add_node_def update_absent)
    with d G'(4) show "map fst (nodes G') = map fst (nodes G) @ t # ts" by simp
  qed
  from 1 2 3 4 show ?case by blast
qed

lemma fst_fold_add_fk: "fst (fold add_fk fks (G, L)) = add_fk_edges fks G"
  by (induction fks arbitrary: G L) (simp_all add: add_fk_def add_fk_edges_def)

lemma map_of_ensure_node:
  "map_of (ensure_node n ns) k =
     (case map_of ns k of Some v \<Rightarrow> Some v | None \<Rightarrow> if k = n then Some None else None)"
proof (cases "n \<in> set (map fst ns)")
  case True
  then have "map_of ns n \<noteq> None" by (simp add: map_of_eq_None_iff)
  with True show ?thesis by (auto simp: ensure_node_def split: option.splits)
next
  case False
  then have "map_of ns n = None" by (simp add: map_of_eq_None_iff)
  with False show ?thesis
    by (auto simp: ensure_node_def map_add_def split: option.splits)
qed

lemma map_of_add_fk_edges:
  "map_of (nodes (add_fk_edges fks G)) k =
     (case map_of (nodes G) k of
        Some v \<Rightarrow> Some v
      | None \<Rightarrow> if k \<in> set (map from_table fks) \<union> set (map to_table fks) then Some None else None)"
proof (induction fks arbitrary: G)
  case Nil
  then show ?case by (simp add: add_fk_edges_def split: option.splits)
next
  case (Cons fk fks)
  have "add_fk_edges (fk # fks) G = add_fk_edges fks (add_edge G (from_table fk) (to_table fk))"
    by (simp add: add_fk_edges_def)
  then show ?case
    by (auto simp: Cons.IH add_edge_def map_of_ensure_node split: option.splits)
qed

lemma sizes_lookup:
  "map_of (zip (map fst ns) (map size_of_node ns)) k =
     map_option (\<lambda>v. case v of None \<Rightarrow> 2000 | Some s \<Rightarrow> s) (map_of ns k)"
  by (induction ns) (auto simp: size_of_node_def)

lemma networkx_result:
  assumes "has_columns si"
  shows "\<exists>fig G0. generate_erd_networkx layout si = Inr fig
           \<and> add_table_nodes si (tables si) DiGraph = Inr G0
           \<and> drawn_nodes fig = map fst (nodes (add_fk_edges (foreign_keys si) G0))
           \<and> node_sizes fig = map size_of_node (nodes (add_fk_edges (foreign_keys si) G0))
           \<and> drawn_edges fig = edge_view (add_fk_edges (foreign_keys si) G0)"
proof -
  from assms add_table_nodes_succeeds [of "tables si" si DiGraph] obtain G0 where
    G0: "add_table_nodes si (tables si) DiGraph = Inr G0"
    by (auto simp: has_columns_def)
  obtain G L where f: "fold add_fk (foreign_keys si) (G0, []) = (G, L)"
    by (cases "fold add_fk (foreign_keys si) (G0, [])")
  with fst_fold_add_fk [of "foreign_keys si" G0 "[]"] have "G = add_fk_edges (foreign_keys si) G0"
    by simp
  with G0 f show ?thesis by (simp add: generate_erd_networkx_def)
qed

section \<open>Claims about the extraction\<close>

text \<open>
  C1.  The claim: every call opens exactly one connection and closes it before it returns or
  raises, also when a statement for one table fails partway.  The code closes the connection
  on the path to \<^verbatim>\<open>return\<close> only.  On the example server that refuses the column statement
  of the second table, the call raises with one connection opened and none closed.
\<close>

theorem rejected_statement_leaves_connection_open:
  "get_postgres_schema_with_relations failing_server default_params no_connections =
     (Inl (DatabaseError (SelectColumns ''public'' ''lines'')), \<lparr>opened = 1, closed = 0\<rparr>)"
  by (simp add: get_postgres_schema_with_relations_def failing_server_def no_connections_def
      select_tables_shop extract_table_def Let_def)

text \<open>
  C2.  When the connection is refused or any statement of the run is rejected, the call
  raises: its result is an error and never a schema, partial or whole; and the load button
  of the shell leaves the schema it held before as it was.
\<close>

theorem failed_extraction_returns_no_model:
  assumes "\<not> accepts srv params
           \<or> (\<exists>q \<in> set (statements_issued (catalog_of srv)). rejects srv q)"
  shows "(\<exists>e. fst (get_postgres_schema_with_relations srv params w) = Inl e)
       \<and> fst (load_schema srv params session w) = session"
proof -
  obtain r w' where g: "get_postgres_schema_with_relations srv params w = (r, w')"
    by (cases "get_postgres_schema_with_relations srv params w")
  have "\<not> (\<exists>si. r = Inr si)"
    using assms get_succeeds_iff [of srv params w] g by auto
  then obtain e where "r = Inl e" by (cases r) auto
  with g show ?thesis by (simp add: load_schema_def)
qed

theorem failed_extraction_returns_no_model_witness:
  "SelectColumns ''public'' ''lines'' \<in> set (statements_issued (catalog_of failing_server))
   \<and> rejects failing_server (SelectColumns ''public'' ''lines'')
   \<and> (\<exists>e. fst (get_postgres_schema_with_relations failing_server default_params
               no_connections) = Inl e)
   \<and> fst (load_schema failing_server default_params (Some shop_model) no_connections)
       = Some shop_model"
proof -
  have h: "SelectColumns ''public'' ''lines'' \<in> set (statements_issued (catalog_of failing_server))
           \<and> rejects failing_server (SelectColumns ''public'' ''lines'')"
    by (simp add: statements_issued_def failing_server_def select_tables_shop)
  then have "\<not> accepts failing_server default_params
           \<or> (\<exists>q \<in> set (statements_issued (catalog_of failing_server)). rejects failing_server q)"
    by blast
  from failed_extraction_returns_no_model [OF this, of no_connections "Some shop_model"] h
  show ?thesis by simp
qed

text \<open>
  C3.  In every schema that the extraction returns, the columns of every listed table are
  in ascending order of \<^verbatim>\<open>position\<close>, as \<^verbatim>\<open>ORDER BY ordinal_position\<close> delivers them; the
  order is strict, since no two columns of a table share an ordinal position in the catalog.
  The positions need not be contiguous.
\<close>

theorem columns_sorted_by_position:
  assumes "get_postgres_schema_with_relations srv params w = (Inr si, w')"
      and "t \<in> set (tables si)"
  shows "\<exists>cs. columns si t = Some cs \<and> sorted (map position cs)
           \<and> (position_is_key (catalog_of srv) \<longrightarrow> sorted_wrt (<) (map position cs))"
proof -
  let ?key = "position_is_key (catalog_of srv)"
  from assms(1) have ex:
    "extract_tables srv (select_tables (catalog_of srv)) empty_schema_info = Inr si"
    by (simp add: get_Inr)
  have "columns_ordered ?key si"
  proof (rule extract_tables_invariant [OF ex])
    show "columns_ordered ?key empty_schema_info"
      by (simp add: columns_ordered_def empty_schema_info_def)
  next
    fix schema table s s'
    assume "columns_ordered ?key s" "extract_table srv schema table s = Inr s'"
    then show "columns_ordered ?key s'" by (rule columns_ordered_step) simp
  qed
  with assms(2) show ?thesis by (simp add: columns_ordered_def)
qed

theorem columns_sorted_by_position_witness:
  "get_postgres_schema_with_relations shop_server default_params no_connections =
     (Inr shop_model, \<lparr>opened = 1, closed = 1\<rparr>)
   \<and> ''public.items'' \<in> set (tables shop_model)
   \<and> position_is_key (catalog_of shop_server)
   \<and> map position (the (columns shop_model ''public.items'')) = [1, 2, 4]
   \<and> sorted_wrt (<) (map position (the (columns shop_model ''public.items'')))"
proof -
  have t: "''public.items'' \<in> set (tables shop_model)"
    by (simp add: shop_model_def)
  have k: "position_is_key (catalog_of shop_server)"
    by (simp add: shop_server_def position_is_key_shop)
  have p: "map position (the (columns shop_model ''public.items'')) = [1, 2, 4]"
    by (simp add: shop_model_def integer_column_def)
  from columns_sorted_by_position [OF shop_extraction t] k
  have "sorted_wrt (<) (map position (the (columns shop_model ''public.items'')))"
    by auto
  with shop_extraction t k p show ?thesis by blast
qed

text \<open>
  C4.  In every schema that the extraction returns, every name in the primary-key entry of a
  table, when the entry is present, is the name of a column of that table: the primary-key
  statement joins \<^verbatim>\<open>information_schema.columns\<close> on the table of the constraint.
\<close>

theorem primary_keys_among_columns:
  assumes "get_postgres_schema_with_relations srv params w = (Inr si, w')"
      and "primary_keys si t = Some pks"
  shows "\<exists>cs. columns si t = Some cs \<and> set pks \<subseteq> set (map name cs)"
proof -
  from assms(1) have ex:
    "extract_tables srv (select_tables (catalog_of srv)) empty_schema_info = Inr si"
    by (simp add: get_Inr)
  have "keys_among_columns si"
  proof (rule extract_tables_invariant [OF ex])
    show "keys_among_columns empty_schema_info"
      by (simp add: keys_among_columns_def empty_schema_info_def)
  qed (rule keys_among_columns_step)
  with assms(2) show ?thesis by (simp add: keys_among_columns_def)
qed

theorem primary_keys_among_columns_witness:
  "get_postgres_schema_with_relations shop_server default_params no_connections =
     (Inr shop_model, \<lparr>opened = 1, closed = 1\<rparr>)
   \<and> primary_keys shop_model ''public.lines'' = Some [''order_id'', ''line_no'']
   \<and> set [''order_id'', ''line_no'']
        \<subseteq> set (map name (the (columns shop_model ''public.lines'')))"
proof -
  have pk: "primary_keys shop_model ''public.lines'' = Some [''order_id'', ''line_no'']"
    by (simp add: shop_model_def)
  from primary_keys_among_columns [OF shop_extraction pk]
  have "set [''order_id'', ''line_no'']
        \<subseteq> set (map name (the (columns shop_model ''public.lines'')))"
    by auto
  with shop_extraction pk show ?thesis by blast
qed

text \<open>
  C10.  For a foreign-key constraint of a listed table with \<open>n\<close> local columns and \<open>n\<close>
  referenced columns, the extraction emits one edge for every pairing of a local column with
  a referenced column, \<open>n * n\<close> edges in a row: the statement joins \<^verbatim>\<open>key_column_usage\<close> and
  \<^verbatim>\<open>constraint_column_usage\<close> on the constraint name and never compares positions.
\<close>

theorem composite_foreign_key_pairings:
  assumes "get_postgres_schema_with_relations srv params w = (Inr si, w')"
      and "(tc_table_schema tc, tc_table_name tc) \<in> set (select_tables (catalog_of srv))"
      and "tc \<in> set (is_table_constraints (catalog_of srv))"
      and "tc_constraint_type tc = ''FOREIGN KEY''"
      and "length (local_columns_of (catalog_of srv) tc) = n"
      and "length (referenced_columns_of (catalog_of srv) tc) = n"
  shows "(\<exists>before after.
            foreign_keys si = before @
              map (foreign_key_of_row (tc_table_schema tc) (tc_table_name tc))
                (pairings (local_columns_of (catalog_of srv) tc)
                   (referenced_columns_of (catalog_of srv) tc)) @ after)
         \<and> length (pairings (local_columns_of (catalog_of srv) tc)
                      (referenced_columns_of (catalog_of srv) tc)) = n * n"
proof -
  let ?cat = "catalog_of srv"
  let ?s = "tc_table_schema tc" and ?t = "tc_table_name tc"
  let ?B = "\<lambda>tc. pairings (local_columns_of ?cat tc) (referenced_columns_of ?cat tc)"
  let ?f = "\<lambda>(schema, table). map (foreign_key_of_row schema table)
                      (select_foreign_keys ?cat schema table)"
  from assms(1) have ex: "extract_tables srv (select_tables ?cat) empty_schema_info = Inr si"
    by (simp add: get_Inr)
  from assms(2) obtain r1 r2 where rows: "select_tables ?cat = r1 @ (?s, ?t) # r2"
    by (auto dest: split_list)
  from assms(3,4) have "tc \<in> set (fk_constraints_of ?cat ?s ?t)"
    by (simp add: fk_constraints_of_def)
  then obtain c1 c2 where cs: "fk_constraints_of ?cat ?s ?t = c1 @ tc # c2"
    by (auto dest: split_list)
  have q: "select_foreign_keys ?cat ?s ?t = concat (map ?B c1) @ ?B tc @ concat (map ?B c2)"
    by (simp add: select_foreign_keys_by_constraint cs)
  from extract_tables_foreign_keys [OF ex]
  have "foreign_keys si =
          (concat (map ?f r1) @ map (foreign_key_of_row ?s ?t) (concat (map ?B c1)))
          @ map (foreign_key_of_row ?s ?t) (?B tc)
          @ (map (foreign_key_of_row ?s ?t) (concat (map ?B c2)) @ concat (map ?f r2))"
    by (simp add: rows q empty_schema_info_def)
  then have "\<exists>before after. foreign_keys si =
      before @ map (foreign_key_of_row ?s ?t) (?B tc) @ after"
    by blast
  moreover have "length (?B tc) = n * n"
    by (simp add: length_pairings assms(5,6))
  ultimately show ?thesis by blast
qed

theorem composite_foreign_key_pairings_witness:
  "get_postgres_schema_with_relations shop_server default_params no_connections =
     (Inr shop_model, \<lparr>opened = 1, closed = 1\<rparr>)
   \<and> items_line_fkey \<in> set (is_table_constraints (catalog_of shop_server))
   \<and> length (local_columns_of (catalog_of shop_server) items_line_fkey) = 2
   \<and> length (referenced_columns_of (catalog_of shop_server) items_line_fkey) = 2
   \<and> (\<exists>before after.
         foreign_keys shop_model = before @
           map (foreign_key_of_row ''public'' ''items'')
             (pairings (local_columns_of (catalog_of shop_server) items_line_fkey)
                (referenced_columns_of (catalog_of shop_server) items_line_fkey)) @ after)
   \<and> length (pairings (local_columns_of (catalog_of shop_server) items_line_fkey)
                (referenced_columns_of (catalog_of shop_server) items_line_fkey)) = 2 * 2"
proof -
  have c: "catalog_of shop_server = shop_catalog" by (simp add: shop_server_def)
  have 1: "(tc_table_schema items_line_fkey, tc_table_name items_line_fkey)
             \<in> set (select_tables (catalog_of shop_server))"
    by (simp add: c select_tables_shop items_line_fkey_def)
  have 2: "items_line_fkey \<in> set (is_table_constraints (catalog_of shop_server))"
    by (simp add: c shop_catalog_def items_line_fkey_def)
  have 3: "tc_constraint_type items_line_fkey = ''FOREIGN KEY''"
    by (simp add: items_line_fkey_def)
  have 4: "length (local_columns_of (catalog_of shop_server) items_line_fkey) = 2"
    by (simp add: c local_columns_of_def shop_catalog_def items_line_fkey_def)
  have 5: "length (referenced_columns_of (catalog_of shop_server) items_line_fkey) = 2"
    by (simp add: c referenced_columns_of_def shop_catalog_def items_line_fkey_def)
  have n: "tc_table_schema items_line_fkey = ''public''" "tc_table_name items_line_fkey = ''items''"
    by (simp_all add: items_line_fkey_def)
  from composite_foreign_key_pairings [OF shop_extraction 1 2 3 4 5] shop_extraction 2 4 5
  show ?thesis by (simp only: n)
qed

section \<open>Claims about the renderers\<close>

text \<open>
  C5.  For a schema model (its table names distinct, a column list for each) with no foreign
  keys, the diagram of \<^verbatim>\<open>generate_erd_graphviz\<close> and the graph of \<^verbatim>\<open>generate_erd_networkx\<close>
  each hold exactly as many nodes as there are tables, and no edge.
\<close>

theorem no_foreign_keys_no_edges:
  assumes "has_columns si" and "distinct (tables si)" and "foreign_keys si = []"
  shows "\<exists>dot fig.
           generate_erd_graphviz si = Inr dot
           \<and> length (node_statements (body dot)) = length (tables si)
           \<and> edge_statements (body dot) = []
           \<and> generate_erd_networkx layout si = Inr fig
           \<and> length (drawn_nodes fig) = length (tables si)
           \<and> drawn_edges fig = []"
proof -
  from graphviz_result [OF assms(1)] assms(3) obtain dot where
    dot: "generate_erd_graphviz si = Inr dot" "node_statements (body dot) = tables si"
         "edge_statements (body dot) = []"
    by auto
  from networkx_result [OF assms(1), of layout] assms(3) obtain fig G0 where
    fig: "generate_erd_networkx layout si = Inr fig"
         "add_table_nodes si (tables si) DiGraph = Inr G0"
         "drawn_nodes fig = map fst (nodes G0)" "drawn_edges fig = edge_view G0"
    by (auto simp: add_fk_edges_def)
  from add_table_nodes_succeeds [of "tables si" si DiGraph] assms(1,2) fig(2)
  have "edges G0 = []" "map fst (nodes G0) = tables si"
    by (auto simp: has_columns_def DiGraph_def)
  with dot fig show ?thesis by (simp add: edge_view_def)
qed

theorem no_foreign_keys_no_edges_witness:
  "has_columns (shop_model\<lparr>foreign_keys := []\<rparr>)
   \<and> distinct (tables (shop_model\<lparr>foreign_keys := []\<rparr>))
   \<and> length (tables (shop_model\<lparr>foreign_keys := []\<rparr>)) = 2
   \<and> (\<exists>dot fig.
         generate_erd_graphviz (shop_model\<lparr>foreign_keys := []\<rparr>) = Inr dot
         \<and> length (node_statements (body dot)) = 2
         \<and> edge_statements (body dot) = []
         \<and> generate_erd_networkx no_layout (shop_model\<lparr>foreign_keys := []\<rparr>) = Inr fig
         \<and> length (drawn_nodes fig) = 2
         \<and> drawn_edges fig = [])"
proof -
  let ?m = "shop_model\<lparr>foreign_keys := []\<rparr>"
  have 1: "has_columns ?m" by (simp add: has_columns_def shop_model_def)
  have 2: "distinct (tables ?m)" by (simp add: shop_model_def)
  have 3: "foreign_keys ?m = []" by simp
  have 4: "length (tables ?m) = 2" by (simp add: shop_model_def)
  from no_foreign_keys_no_edges [OF 1 2 3, of no_layout] 1 2
  show ?thesis by (simp only: 4)
qed

text \<open>
  C7.  The diagram of \<^verbatim>\<open>generate_erd_graphviz\<close> holds one edge statement for each element of
  \<^verbatim>\<open>foreign_keys\<close>, in order, from the owning table to the referenced table, labelled with
  the local column, the arrow U+2192 (the bytes E2 86 92 of its UTF-8 form) between two
  spaces, and the referenced column; edges between the same two tables all stay.
\<close>

theorem graphviz_one_edge_per_foreign_key:
  assumes "has_columns si"
  shows "\<exists>dot. generate_erd_graphviz si = Inr dot
           \<and> edge_statements (body dot) =
               map (\<lambda>fk. (from_table fk, to_table fk,
                           from_column fk @ '' '' @ [CHR 0xE2, CHR 0x86, CHR 0x92] @ '' ''
                             @ to_column fk))
                 (foreign_keys si)"
  using graphviz_result [OF assms] by (auto simp: fk_label_def arrow_def)

theorem graphviz_one_edge_per_foreign_key_witness:
  "has_columns shop_model
   \<and> (\<exists>dot. generate_erd_graphviz shop_model = Inr dot
         \<and> edge_statements (body dot) =
             [(''public.items'', ''public.lines'',
               ''order_id'' @ '' '' @ [CHR 0xE2, CHR 0x86, CHR 0x92] @ '' order_id''),
              (''public.items'', ''public.lines'',
                ''order_id'' @ '' '' @ [CHR 0xE2, CHR 0x86, CHR 0x92] @ '' line_no''),
              (''public.items'', ''public.lines'',
                ''line_no'' @ '' '' @ [CHR 0xE2, CHR 0x86, CHR 0x92] @ '' order_id''),
              (''public.items'', ''public.lines'',
                ''line_no'' @ '' '' @ [CHR 0xE2, CHR 0x86, CHR 0x92] @ '' line_no'')])"
proof -
  have 1: "has_columns shop_model" by (simp add: has_columns_def shop_model_def)
  have 2: "map (\<lambda>fk. (from_table fk, to_table fk,
                       from_column fk @ '' '' @ [CHR 0xE2, CHR 0x86, CHR 0x92] @ '' ''
                         @ to_column fk))
             (foreign_keys shop_model) =
           [(''public.items'', ''public.lines'',
             ''order_id'' @ '' '' @ [CHR 0xE2, CHR 0x86, CHR 0x92] @ '' order_id''),
            (''public.items'', ''public.lines'',
              ''order_id'' @ '' '' @ [CHR 0xE2, CHR 0x86, CHR 0x92] @ '' line_no''),
            (''public.items'', ''public.lines'',
              ''line_no'' @ '' '' @ [CHR 0xE2, CHR 0x86, CHR 0x92] @ '' order_id''),
            (''public.items'', ''public.lines'',
              ''line_no'' @ '' '' @ [CHR 0xE2, CHR 0x86, CHR 0x92] @ '' line_no'')]"
    by (simp add: shop_model_def items_to_lines_def)
  from graphviz_one_edge_per_foreign_key [OF 1] 1 show ?thesis
    by (simp only: 2)
qed

text \<open>
  C8.  In the figure of \<^verbatim>\<open>generate_erd_networkx\<close> the node of every table is drawn with the
  size \<open>100\<close> times the number of its columns: one constant for all tables.
\<close>

theorem node_size_proportional_to_columns:
  assumes "has_columns si" and "t \<in> set (tables si)"
  shows "\<exists>fig cs.
           generate_erd_networkx layout si = Inr fig \<and> columns si t = Some cs
           \<and> map_of (zip (drawn_nodes fig) (node_sizes fig)) t = Some (int (length cs) * 100)"
proof -
  from assms obtain cs where cs: "columns si t = Some cs"
    by (auto simp: has_columns_def)
  from networkx_result [OF assms(1), of layout] obtain fig G0 where
    fig: "generate_erd_networkx layout si = Inr fig"
         "add_table_nodes si (tables si) DiGraph = Inr G0"
         "drawn_nodes fig = map fst (nodes (add_fk_edges (foreign_keys si) G0))"
         "node_sizes fig = map size_of_node (nodes (add_fk_edges (foreign_keys si) G0))"
    by auto
  from add_table_nodes_succeeds [of "tables si" si DiGraph] assms fig(2) cs
  have "map_of (nodes G0) t = Some (Some (int (length cs) * 100))"
    by (auto simp: has_columns_def)
  then have "map_of (nodes (add_fk_edges (foreign_keys si) G0)) t
               = Some (Some (int (length cs) * 100))"
    by (simp add: map_of_add_fk_edges)
  then have "map_of (zip (drawn_nodes fig) (node_sizes fig)) t = Some (int (length cs) * 100)"
    by (simp add: fig(3,4) sizes_lookup)
  with fig(1) cs show ?thesis by blast
qed

theorem node_size_proportional_to_columns_witness:
  "has_columns shop_model \<and> ''public.items'' \<in> set (tables shop_model)
   \<and> length (the (columns shop_model ''public.items'')) = 3
   \<and> (\<exists>fig. generate_erd_networkx no_layout shop_model = Inr fig
         \<and> map_of (zip (drawn_nodes fig) (node_sizes fig)) ''public.items'' = Some 300)"
proof -
  have 1: "has_columns shop_model" by (simp add: has_columns_def shop_model_def)
  have 2: "''public.items'' \<in> set (tables shop_model)" by (simp add: shop_model_def)
  have 3: "length (the (columns shop_model ''public.items'')) = 3"
    by (simp add: shop_model_def)
  from node_size_proportional_to_columns [OF 1 2, of no_layout] 3
  have "\<exists>fig. generate_erd_networkx no_layout shop_model = Inr fig
         \<and> map_of (zip (drawn_nodes fig) (node_sizes fig)) ''public.items'' = Some 300"
    by auto
  with 1 2 3 show ?thesis by blast
qed

text \<open>
  C9.  When an end of a foreign key names a table that is not in \<^verbatim>\<open>tables\<close>, neither
  renderer raises.  The diagram holds the edge and no node statement (so no column rows) for
  that name; the graph holds the name as a node with no \<^verbatim>\<open>size\<close> attribute, drawn with the
  default size.
\<close>

theorem unresolved_table_is_rendered:
  assumes "has_columns si" and "fk \<in> set (foreign_keys si)"
      and "u = from_table fk \<or> u = to_table fk" and "u \<notin> set (tables si)"
  shows "\<exists>dot fig.
           generate_erd_graphviz si = Inr dot
           \<and> generate_erd_networkx layout si = Inr fig
           \<and> (from_table fk, to_table fk, fk_label fk) \<in> set (edge_statements (body dot))
           \<and> u \<notin> set (node_statements (body dot))
           \<and> u \<in> set (drawn_nodes fig)
           \<and> map_of (zip (drawn_nodes fig) (node_sizes fig)) u = Some 2000"
proof -
  from graphviz_result [OF assms(1)] assms(2,4) obtain dot where
    dot: "generate_erd_graphviz si = Inr dot"
         "(from_table fk, to_table fk, fk_label fk) \<in> set (edge_statements (body dot))"
         "u \<notin> set (node_statements (body dot))"
    by auto
  from networkx_result [OF assms(1), of layout] obtain fig G0 where
    fig: "generate_erd_networkx layout si = Inr fig"
         "add_table_nodes si (tables si) DiGraph = Inr G0"
         "drawn_nodes fig = map fst (nodes (add_fk_edges (foreign_keys si) G0))"
         "node_sizes fig = map size_of_node (nodes (add_fk_edges (foreign_keys si) G0))"
    by auto
  let ?G = "add_fk_edges (foreign_keys si) G0"
  from add_table_nodes_succeeds [of "tables si" si DiGraph] assms(1,4) fig(2)
  have "map_of (nodes G0) u = None"
    by (auto simp: has_columns_def DiGraph_def)
  moreover from assms(2,3)
  have "u \<in> set (map from_table (foreign_keys si)) \<union> set (map to_table (foreign_keys si))"
    by auto
  ultimately have g: "map_of (nodes ?G) u = Some None"
    by (simp only: map_of_add_fk_edges option.case if_True)
  then have "u \<in> set (map fst (nodes ?G))"
    by (metis map_of_eq_None_iff option.distinct(1) set_map)
  moreover from g have "map_of (zip (drawn_nodes fig) (node_sizes fig)) u = Some 2000"
    by (simp add: fig(3,4) sizes_lookup)
  ultimately show ?thesis using dot fig(1,3) by auto
qed

theorem unresolved_table_is_rendered_witness:
  "has_columns (shop_model\<lparr>foreign_keys := [items_to_lines ''owner'' ''id''
       \<lparr>to_table := ''auth.users''\<rparr>]\<rparr>)
   \<and> ''auth.users'' \<notin> set (tables shop_model)
   \<and> (\<exists>dot fig.
         generate_erd_graphviz (shop_model\<lparr>foreign_keys := [items_to_lines ''owner'' ''id''
             \<lparr>to_table := ''auth.users''\<rparr>]\<rparr>) = Inr dot
         \<and> generate_erd_networkx no_layout (shop_model\<lparr>foreign_keys :=
             [items_to_lines ''owner'' ''id'' \<lparr>to_table := ''auth.users''\<rparr>]\<rparr>) = Inr fig
         \<and> (''public.items'', ''auth.users'', ''owner'' @ '' '' @ arrow @ '' id'')
              \<in> set (edge_statements (body dot))
         \<and> ''auth.users'' \<notin> set (node_statements (body dot))
         \<and> ''auth.users'' \<in> set (drawn_nodes fig)
         \<and> map_of (zip (drawn_nodes fig) (node_sizes fig)) ''auth.users'' = Some 2000)"
proof -
  let ?fk = "items_to_lines ''owner'' ''id'' \<lparr>to_table := ''auth.users''\<rparr>"
  let ?m = "shop_model\<lparr>foreign_keys := [?fk]\<rparr>"
  have 1: "has_columns ?m" by (simp add: has_columns_def shop_model_def)
  have 2: "?fk \<in> set (foreign_keys ?m)" by simp
  have 3: "''auth.users'' = from_table ?fk \<or> ''auth.users'' = to_table ?fk" by simp
  have 4: "''auth.users'' \<notin> set (tables ?m)" by (simp add: shop_model_def)
  have 5: "from_table ?fk = ''public.items''" "to_table ?fk = ''auth.users''"
    "fk_label ?fk = ''owner'' @ '' '' @ arrow @ '' id''"
    by (simp_all add: items_to_lines_def fk_label_def)
  from unresolved_table_is_rendered [OF 1 2 3 4, of no_layout] 1 4
  show ?thesis by (simp only: 5) simp
qed

end
